theory Spec2Isabelle
  imports Complex_Main "HOL-Library.AList"
begin

section \<open>Calendar dates\<close>

text \<open>
  The program builds \<^verbatim>\<open>datetime.date\<close> objects with \<^verbatim>\<open>date(y, m, d)\<close> and subtracts
  them; \<^verbatim>\<open>(a - b).days\<close> is the difference of the proleptic Gregorian ordinals. The
  definitions below follow the standard library: \<^verbatim>\<open>_is_leap\<close>, \<^verbatim>\<open>_days_before_year\<close>,
  \<^verbatim>\<open>_days_in_month\<close>, \<^verbatim>\<open>_days_before_month\<close>, \<^verbatim>\<open>_ymd2ord\<close>, and the range check of
  the constructor, which raises \<^verbatim>\<open>ValueError\<close>.
\<close>

datatype error = ValueError | ZeroDivisionError

record date =
  year :: int
  month :: int
  day :: int

definition is_leap :: "int \<Rightarrow> bool" where
  "is_leap y \<longleftrightarrow> y mod 4 = 0 \<and> (y mod 100 \<noteq> 0 \<or> y mod 400 = 0)"

definition days_before_year :: "int \<Rightarrow> int" where
  "days_before_year y = (let z = y - 1 in z * 365 + z div 4 - z div 100 + z div 400)"

definition DAYS_IN_MONTH :: "int list" where
  "DAYS_IN_MONTH = [-1, 31, 28, 31, 30, 31, 30, 31, 31, 30, 31, 30, 31]"

definition DAYS_BEFORE_MONTH :: "int list" where
  "DAYS_BEFORE_MONTH = [-1, 0, 31, 59, 90, 120, 151, 181, 212, 243, 273, 304, 334]"

definition days_in_month :: "int \<Rightarrow> int \<Rightarrow> int" where
  "days_in_month y m = (if m = 2 \<and> is_leap y then 29 else DAYS_IN_MONTH ! nat m)"

definition days_before_month :: "int \<Rightarrow> int \<Rightarrow> int" where
  "days_before_month y m =
     DAYS_BEFORE_MONTH ! nat m + (if m > 2 \<and> is_leap y then 1 else 0)"

definition valid_date :: "date \<Rightarrow> bool" where
  "valid_date d \<longleftrightarrow>
     1 \<le> year d \<and> year d \<le> 9999 \<and> 1 \<le> month d \<and> month d \<le> 12 \<and>
     1 \<le> day d \<and> day d \<le> days_in_month (year d) (month d)"

definition mk_date :: "int \<times> int \<times> int \<Rightarrow> date" where
  "mk_date ymd = (case ymd of (y, m, d) \<Rightarrow> \<lparr>year = y, month = m, day = d\<rparr>)"

definition py_date :: "int \<times> int \<times> int \<Rightarrow> error + date" where
  "py_date ymd = (if valid_date (mk_date ymd) then Inr (mk_date ymd) else Inl ValueError)"

definition toordinal :: "date \<Rightarrow> int" where
  "toordinal d = days_before_year (year d) + days_before_month (year d) (month d) + day d"

definition date_sub_days :: "date \<Rightarrow> date \<Rightarrow> int" where
  "date_sub_days a b = toordinal a - toordinal b"

text \<open>Dates compare as the triples (year, month, day).\<close>

definition date_le :: "date \<Rightarrow> date \<Rightarrow> bool" where
  "date_le a b \<longleftrightarrow>
     year a < year b \<or>
     (year a = year b \<and> (month a < month b \<or> (month a = month b \<and> day a \<le> day b)))"

section \<open>Dictionaries\<close>

text \<open>
  A Python \<^verbatim>\<open>dict\<close> keeps its keys in insertion order, and the report sorts it with a
  stable sort, so a dictionary is an association list with distinct keys:
  \<^const>\<open>AList.update\<close> overwrites the value of a present key in place and appends a new
  key at the end, as \<^verbatim>\<open>d[k] = v\<close> does. Reading a missing key of a
  \<^verbatim>\<open>defaultdict\<close> stores the default under that key and returns it.
\<close>

type_synonym ('k, 'v) dict = "('k \<times> 'v) list"

definition defaultdict_getitem :: "'v \<Rightarrow> ('k, 'v) dict \<Rightarrow> 'k \<Rightarrow> 'v \<times> ('k, 'v) dict" where
  "defaultdict_getitem dflt d k =
     (case map_of d k of Some v \<Rightarrow> (v, d) | None \<Rightarrow> (dflt, d @ [(k, dflt)]))"

section \<open>Visit History Builder\<close>

text \<open>
  A row of the source table after \<^verbatim>\<open>split('-')\<close> and \<^verbatim>\<open>int\<close>: the three numbers of
  the \<^verbatim>\<open>DATE\<close> column and the \<^verbatim>\<open>ENTERED\<close> country code. Reading the file and
  parsing the digits stay outside the model. The year index is keyed by the year text
  of the row in the program and by the year number here. \<^verbatim>\<open>date.today()\<close> is the
  parameter \<open>today\<close>.
\<close>

type_synonym row = "(int \<times> int \<times> int) \<times> string"

type_synonym history =
  "(string, int) dict \<times> (string, date) dict \<times> (string, date) dict \<times> (int, string list) dict"

text \<open>The \<^verbatim>\<open>try\<close> block: the date of row \<open>i+1\<close>, or today after the last row.\<close>

definition departure :: "date \<Rightarrow> row list \<Rightarrow> error + (int \<times> date)" where
  "departure today rest =
     (case rest of
        [] \<Rightarrow> Inr (year today, today)
      | nxt # _ \<Rightarrow>
          (case py_date (fst nxt) of
             Inl e \<Rightarrow> Inl e
           | Inr departure_date \<Rightarrow> Inr (fst (fst nxt), departure_date)))"

text \<open>\<^verbatim>\<open>if country not in visityear2countries[y]: visityear2countries[y].append(country)\<close>\<close>

definition add_year_country :: "int \<Rightarrow> string \<Rightarrow> (int, string list) dict \<Rightarrow> (int, string list) dict" where
  "add_year_country y country y2c =
     (let l = (case map_of y2c y of None \<Rightarrow> [] | Some l \<Rightarrow> l)
      in AList.update y (if country \<in> set l then l else l @ [country]) y2c)"

text \<open>The statements of one loop iteration that follow the two date constructions.\<close>

definition visit_step ::
  "int \<Rightarrow> date \<Rightarrow> string \<Rightarrow> int \<Rightarrow> date \<Rightarrow> history \<Rightarrow> history" where
  "visit_step entry_y entry_date country depart_y departure_date h =
     (case h of (country2days, country2firstvisit, country2lastvisit, visityear2countries) \<Rightarrow>
        (let delta = date_sub_days departure_date entry_date;
             (old, c2d0) = defaultdict_getitem 0 country2days country
         in (AList.update country (old + delta) c2d0,
             (if map_of country2firstvisit country = None
              then AList.update country entry_date country2firstvisit
              else country2firstvisit),
             AList.update country departure_date country2lastvisit,
             add_year_country depart_y country
               (add_year_country entry_y country visityear2countries))))"

fun visit_loop :: "date \<Rightarrow> row list \<Rightarrow> history \<Rightarrow> error + history" where
  "visit_loop today [] h = Inr h"
| "visit_loop today (r # rest) h =
     (case py_date (fst r) of
        Inl e \<Rightarrow> Inl e
      | Inr entry_date \<Rightarrow>
          (case departure today rest of
             Inl e \<Rightarrow> Inl e
           | Inr (depart_y, departure_date) \<Rightarrow>
               visit_loop today rest
                 (visit_step (fst (fst r)) entry_date (snd r) depart_y departure_date h)))"

definition create_visit_history :: "date \<Rightarrow> row list \<Rightarrow> error + history" where
  "create_visit_history today rows = visit_loop today rows ([], [], [], [])"

section \<open>Statistics Derivation\<close>

text \<open>
  The percent table holds the text \<^verbatim>\<open>str(round((days/total_days)*100, 1))+'%'\<close>. An
  entry keeps the two integer operands of the division; \<open>fraction\<close> and \<open>percentage\<close>
  below give their exact quotient and that quotient times 100. The rounding and the
  printing are floating-point operations and are not modelled. The division raises when
  \<open>total_days\<close> is zero.
\<close>

datatype percent_text = PercentText int int

fun percent_loop ::
  "int \<Rightarrow> (string, int) dict \<Rightarrow> (string, percent_text) dict \<Rightarrow> error + (string, percent_text) dict" where
  "percent_loop total_days [] country2percent = Inr country2percent"
| "percent_loop total_days ((country, days) # rest) country2percent =
     (if total_days = 0 then Inl ZeroDivisionError
      else percent_loop total_days rest
             (AList.update country (PercentText days total_days) country2percent))"

definition create_country2percent :: "(string, int) dict \<Rightarrow> error + (string, percent_text) dict" where
  "create_country2percent country2days =
     percent_loop (sum_list (map snd country2days)) country2days []"

text \<open>
  The rank loop. \<open>current_max_days\<close> starts at \<^verbatim>\<open>float('inf')\<close>, written \<open>None\<close>: every
  integer is below it. \<^verbatim>\<open>sorted(..., key=lambda x: x[1], reverse=True)\<close> is stable and
  keeps the order of equal keys, as \<^const>\<open>sort_key\<close> on the negated key does.
\<close>

type_synonym rank_state = "(string, int) dict \<times> int \<times> int option \<times> int"

definition below :: "int \<Rightarrow> int option \<Rightarrow> bool" where
  "below days current_max_days = (case current_max_days of None \<Rightarrow> True | Some m \<Rightarrow> days < m)"

definition rank_step :: "rank_state \<Rightarrow> string \<times> int \<Rightarrow> rank_state" where
  "rank_step s cd =
     (case s of (country2rank, current_rank, current_max_days, rank_diff) \<Rightarrow>
      case cd of (country, days) \<Rightarrow>
        if below days current_max_days
        then (AList.update country (current_rank + rank_diff + 1) country2rank,
              current_rank + rank_diff + 1, Some days, 0)
        else (AList.update country current_rank country2rank,
              current_rank, current_max_days, rank_diff + 1))"

definition create_country2rank :: "(string, int) dict \<Rightarrow> (string, int) dict" where
  "create_country2rank country2days =
     (let sorted_c2d = sort_key (\<lambda>x. - snd x) country2days
      in fst (foldl rank_step ([], 0, None, 0) sorted_c2d))"

section \<open>Aggregate Rollup and the constructor\<close>

record config =
  source :: string
  lang :: string
  track_home :: bool
  home_code :: string
  home_name :: string
  track_residency :: bool
  residency_code :: string
  residency_name :: string
  residency_begin :: "int \<times> int \<times> int"
  table_style :: string
  report_style :: string

text \<open>\<^verbatim>\<open>round(a/365, 1)\<close> is a float; the record keeps the integer it is computed from.\<close>

datatype years = Round1_Div365 int

record TravelDayCounter =
  cfg :: config
  country2days :: "(string, int) dict"
  country2percent :: "(string, percent_text) dict"
  country2rank :: "(string, int) dict"
  country2firstvisit :: "(string, date) dict"
  country2lastvisit :: "(string, date) dict"
  visityear2countries :: "(int, string list) dict"
  num_visited_countries :: nat
  days_home :: int
  years_home :: years
  days_abroad :: int
  years_abroad :: years
  residency_period :: int

definition day_count :: "date \<Rightarrow> int \<times> int \<times> int \<Rightarrow> error + int" where
  "day_count today start_date =
     (case py_date start_date of
        Inl e \<Rightarrow> Inl e
      | Inr start \<Rightarrow> Inr (date_sub_days today start))"

text \<open>
  \<^verbatim>\<open>__init__\<close>. \<open>self.country2days\<close> is the \<^verbatim>\<open>defaultdict\<close> the Builder returned, so
  reading \<^verbatim>\<open>self.country2days[self.home_code]\<close> stores a zero for a home code that is
  not a key; the later statements and the object see the dictionary after that read.
\<close>

definition TravelDayCounter_init :: "config \<Rightarrow> date \<Rightarrow> row list \<Rightarrow> error + TravelDayCounter" where
  "TravelDayCounter_init c today rows =
     (case create_visit_history today rows of
        Inl e \<Rightarrow> Inl e
      | Inr (c2d, c2f, c2l, y2c) \<Rightarrow>
          (case create_country2percent c2d of
             Inl e \<Rightarrow> Inl e
           | Inr c2p \<Rightarrow>
               (let c2r = create_country2rank c2d;
                    n = length c2d;
                    (dh, c2d') = defaultdict_getitem 0 c2d (home_code c);
                    da = sum_list (map snd (filter (\<lambda>(country, days). country \<noteq> home_code c) c2d'))
                in (case day_count today (residency_begin c) of
                      Inl e \<Rightarrow> Inl e
                    | Inr rp \<Rightarrow>
                        Inr \<lparr>cfg = c, country2days = c2d', country2percent = c2p,
                             country2rank = c2r, country2firstvisit = c2f,
                             country2lastvisit = c2l, visityear2countries = y2c,
                             num_visited_countries = n, days_home = dh,
                             years_home = Round1_Div365 dh, days_abroad = da,
                             years_abroad = Round1_Div365 da, residency_period = rp\<rparr>))))"

section \<open>Stays: the intervals the Builder measures\<close>

text \<open>
  The stay opened by a row lasts from the row's date to the date of the next row, or to
  today after the last row. \<open>stays\<close> lists them in input order with their country;
  \<open>total_stay_days\<close> adds up the signed lengths of the stays of one country.
\<close>

type_synonym stay = "string \<times> date \<times> date"

fun stays :: "date \<Rightarrow> row list \<Rightarrow> stay list" where
  "stays today [] = []"
| "stays today (r # rest) =
     (snd r, mk_date (fst r), (case rest of [] \<Rightarrow> today | nxt # _ \<Rightarrow> mk_date (fst nxt)))
       # stays today rest"

definition stay_days :: "stay \<Rightarrow> int" where
  "stay_days s = (case s of (c, e, d) \<Rightarrow> date_sub_days d e)"

definition total_stay_days :: "stay list \<Rightarrow> string \<Rightarrow> int" where
  "total_stay_days ss c = sum_list (map stay_days (filter (\<lambda>s. fst s = c) ss))"

definition stay_step :: "history \<Rightarrow> stay \<Rightarrow> history" where
  "stay_step h s = (case s of (c, e, d) \<Rightarrow> visit_step (year e) e c (year d) d h)"

definition dict_get0 :: "('k, int) dict \<Rightarrow> 'k \<Rightarrow> int" where
  "dict_get0 d k = (case map_of d k of None \<Rightarrow> 0 | Some v \<Rightarrow> v)"

text \<open>
  One loop iteration changes the four tables independently; the four functions below are
  its effect on each table, for the stay the iteration measures.
\<close>

definition days_step :: "(string, int) dict \<Rightarrow> stay \<Rightarrow> (string, int) dict" where
  "days_step c2d s =
     (let (old, c2d0) = defaultdict_getitem 0 c2d (fst s)
      in AList.update (fst s) (old + stay_days s) c2d0)"

definition first_step :: "(string, date) dict \<Rightarrow> stay \<Rightarrow> (string, date) dict" where
  "first_step c2f s =
     (if map_of c2f (fst s) = None then AList.update (fst s) (fst (snd s)) c2f else c2f)"

definition last_step :: "(string, date) dict \<Rightarrow> stay \<Rightarrow> (string, date) dict" where
  "last_step c2l s = AList.update (fst s) (snd (snd s)) c2l"

definition years_step :: "(int, string list) dict \<Rightarrow> stay \<Rightarrow> (int, string list) dict" where
  "years_step y2c s =
     add_year_country (year (snd (snd s))) (fst s)
       (add_year_country (year (fst (snd s))) (fst s) y2c)"

section \<open>Example inputs\<close>

definition example_config :: config where
  "example_config =
     \<lparr>source = ''visits.csv'', lang = ''en'', track_home = True, home_code = ''A'',
      home_name = ''Home'', track_residency = True, residency_code = ''B'',
      residency_name = ''Abroad'', residency_begin = (2020, 6, 1),
      table_style = ''full'', report_style = ''chrono''\<rparr>"

definition example_today :: date where
  "example_today = \<lparr>year = 2021, month = 1, day = 1\<rparr>"

definition example_rows :: "row list" where
  "example_rows = [((2020, 1, 1), ''A''), ((2020, 6, 1), ''B''), ((2020, 12, 1), ''A'')]"

definition example_config_away :: config where
  "example_config_away = example_config\<lparr>home_code := ''H''\<rparr>"

definition example_counter :: TravelDayCounter where
  "example_counter =
     \<lparr>cfg = example_config,
      country2days = [(''A'', 183), (''B'', 183)],
      country2percent = [(''A'', PercentText 183 366), (''B'', PercentText 183 366)],
      country2rank = [(''A'', 1), (''B'', 1)],
      country2firstvisit =
        [(''A'', \<lparr>year = 2020, month = 1, day = 1\<rparr>),
         (''B'', \<lparr>year = 2020, month = 6, day = 1\<rparr>)],
      country2lastvisit =
        [(''A'', \<lparr>year = 2021, month = 1, day = 1\<rparr>),
         (''B'', \<lparr>year = 2020, month = 12, day = 1\<rparr>)],
      visityear2countries = [(2020, [''A'', ''B'']), (2021, [''A''])],
      num_visited_countries = 2, days_home = 183, years_home = Round1_Div365 183,
      days_abroad = 183, years_abroad = Round1_Div365 183, residency_period = 214\<rparr>"

definition example_counter_away :: TravelDayCounter where
  "example_counter_away =
     example_counter\<lparr>cfg := example_config_away,
       country2days := [(''A'', 183), (''B'', 183), (''H'', 0)],
       days_home := 0, years_home := Round1_Div365 0,
       days_abroad := 366, years_abroad := Round1_Div365 366\<rparr>"

definition example_history :: history where
  "example_history =
     ([(''A'', 183), (''B'', 183)],
      [(''A'', \<lparr>year = 2020, month = 1, day = 1\<rparr>),
       (''B'', \<lparr>year = 2020, month = 6, day = 1\<rparr>)],
      [(''A'', \<lparr>year = 2021, month = 1, day = 1\<rparr>),
       (''B'', \<lparr>year = 2020, month = 12, day = 1\<rparr>)],
      [(2020, [''A'', ''B'']), (2021, [''A''])])"

section \<open>Input order and the year index\<close>

text \<open>
  \<open>chronological\<close>: the rows are sorted ascending by date. \<open>none_after\<close>: no row is
  dated after the current date. \<open>listed\<close>: the year has a list, the country is in it, and
  the list has no duplicates.
\<close>

definition chronological :: "row list \<Rightarrow> bool" where
  "chronological rows \<longleftrightarrow> sorted_wrt date_le (map (\<lambda>r. mk_date (fst r)) rows)"

definition none_after :: "date \<Rightarrow> row list \<Rightarrow> bool" where
  "none_after today rows \<longleftrightarrow> list_all (\<lambda>r. date_le (mk_date (fst r)) today) rows"

definition listed :: "(int, string list) dict \<Rightarrow> int \<Rightarrow> string \<Rightarrow> bool" where
  "listed y2c y c = (case map_of y2c y of None \<Rightarrow> False | Some l \<Rightarrow> c \<in> set l \<and> distinct l)"

definition lists_distinct :: "(int, string list) dict \<Rightarrow> bool" where
  "lists_distinct y2c = list_all (\<lambda>yl. distinct (snd yl)) y2c"

section \<open>Competition ranking\<close>

text \<open>
  \<open>more_days d n\<close> counts the entries of \<open>d\<close> with more than \<open>n\<close> days and
  \<open>tie_group_size d n\<close> those with exactly \<open>n\<close> days; the competition rank of a
  day count is one more than the number of entries above it. \<open>rank_inv\<close> is the
  invariant of the rank loop after the prefix \<open>ps\<close> of the sorted entries.
\<close>

definition more_days :: "(string, int) dict \<Rightarrow> int \<Rightarrow> nat" where
  "more_days d n = length (filter (\<lambda>x. n < snd x) d)"

definition tie_group_size :: "(string, int) dict \<Rightarrow> int \<Rightarrow> nat" where
  "tie_group_size d n = length (filter (\<lambda>x. snd x = n) d)"

definition competition_rank :: "(string, int) dict \<Rightarrow> int \<Rightarrow> int" where
  "competition_rank d n = 1 + int (more_days d n)"

definition rank_inv :: "(string, int) dict \<Rightarrow> rank_state \<Rightarrow> bool" where
  "rank_inv ps s =
     (case s of (c2r, cr, cm, rd) \<Rightarrow>
        cr + rd = int (length ps) \<and>
        cm = (if ps = [] then None else Some (snd (last ps))) \<and>
        (ps \<noteq> [] \<longrightarrow> cr = competition_rank ps (snd (last ps))) \<and>
        (\<forall>x\<in>set ps. map_of c2r (fst x) = Some (competition_rank ps (snd x))))"

definition example_days :: "(string, int) dict" where
  "example_days = [(''A'', 5), (''B'', 7), (''C'', 7), (''D'', 1), (''E'', 9)]"

section \<open>Exact percentages and the shortened table\<close>



text \<open>
  \<^verbatim>\<open>shortened_table\<close>: the countries with at least \<open>threshold\<close> days, the days of the
  others, and the text of their share. The division by the sum of all day totals is
  not inside a loop, so it raises whenever that sum is zero.
\<close>

definition shortened_table ::
  "TravelDayCounter \<Rightarrow> int \<Rightarrow> error + ((string, int) dict \<times> int \<times> percent_text)" where
  "shortened_table t threshold =
     (let shortened_c2d = filter (\<lambda>(country, day). day \<ge> threshold) (country2days t);
          rest_days = sum_list (filter (\<lambda>day. day < threshold) (map snd (country2days t)));
          total_days = sum_list (map snd (country2days t))
      in if total_days = 0 then Inl ZeroDivisionError
         else Inr (shortened_c2d, rest_days, PercentText rest_days total_days))"

text \<open>The object the constructor builds from no rows, for a residency period \<open>rp\<close>.\<close>

definition empty_input_counter :: "config \<Rightarrow> int \<Rightarrow> TravelDayCounter" where
  "empty_input_counter c rp =
     \<lparr>cfg = c, country2days = [(home_code c, 0)], country2percent = [],
      country2rank = [], country2firstvisit = [], country2lastvisit = [],
      visityear2countries = [], num_visited_countries = 0, days_home = 0,
      years_home = Round1_Div365 0, days_abroad = 0,
      years_abroad = Round1_Div365 0, residency_period = rp\<rparr>"

section \<open>The worked example\<close>

text \<open>
  C1. For the rows (2020-01-01, A), (2020-06-01, B), (2020-12-01, A) and today fixed at
  2021-01-01 the Builder returns total days A: 183 and B: 183; the three stays last
  152, 183 and 31 days; the rank derivation gives A and B rank 1.
\<close>

theorem example_totals_and_ranks:
  "create_visit_history \<lparr>year = 2021, month = 1, day = 1\<rparr>
       [((2020, 1, 1), ''A''), ((2020, 6, 1), ''B''), ((2020, 12, 1), ''A'')]
     = Inr ([(''A'', 183), (''B'', 183)],
            [(''A'', \<lparr>year = 2020, month = 1, day = 1\<rparr>),
             (''B'', \<lparr>year = 2020, month = 6, day = 1\<rparr>)],
            [(''A'', \<lparr>year = 2021, month = 1, day = 1\<rparr>),
             (''B'', \<lparr>year = 2020, month = 12, day = 1\<rparr>)],
            [(2020, [''A'', ''B'']), (2021, [''A''])])
   \<and> map stay_days (stays \<lparr>year = 2021, month = 1, day = 1\<rparr>
       [((2020, 1, 1), ''A''), ((2020, 6, 1), ''B''), ((2020, 12, 1), ''A'')]) = [152, 183, 31]
   \<and> create_country2rank [(''A'', 183), (''B'', 183)] = [(''A'', 1), (''B'', 1)]"
  by code_simp

section \<open>The Builder as a fold over the stays\<close>

lemma year_mk_date: "year (mk_date ymd) = fst ymd"
  by (simp add: mk_date_def split: prod.splits)

lemma visit_loop_Inr_valid:
  "visit_loop today rows h = Inr h' \<Longrightarrow> r \<in> set rows \<Longrightarrow> valid_date (mk_date (fst r))"
proof (induction rows arbitrary: h)
  case Nil
  then show ?case by simp
next
  case (Cons a rows)
  from Cons.prems(1) have va: "valid_date (mk_date (fst a))"
    by (auto simp: py_date_def split: sum.splits if_splits)
  from Cons.prems(1) have "\<exists>h1. visit_loop today rows h1 = Inr h'"
    by (auto split: sum.splits simp del: split_paired_Ex)
  with Cons.IH Cons.prems(2) va show ?case by auto
qed

lemma visit_loop_stays:
  "\<forall>r\<in>set rows. valid_date (mk_date (fst r)) \<Longrightarrow>
   visit_loop today rows h = Inr (foldl stay_step h (stays today rows))"
proof (induction rows arbitrary: h)
  case Nil
  then show ?case by simp
next
  case (Cons a rows)
  have pa: "py_date (fst a) = Inr (mk_date (fst a))"
    using Cons.prems by (simp add: py_date_def)
  show ?case
  proof (cases rows)
    case Nil
    then show ?thesis
      using pa by (simp add: departure_def stay_step_def year_mk_date)
  next
    case (Cons b rest)
    have pb: "py_date (fst b) = Inr (mk_date (fst b))"
      using Cons.prems Cons by (simp add: py_date_def)
    have "visit_loop today (a # rows) h =
          visit_loop today rows (stay_step h (snd a, mk_date (fst a), mk_date (fst b)))"
      using pa pb Cons by (simp add: departure_def stay_step_def year_mk_date)
    also have "\<dots> = Inr (foldl stay_step (stay_step h (snd a, mk_date (fst a), mk_date (fst b))) (stays today rows))"
      using Cons.IH Cons.prems by simp
    finally show ?thesis using Cons by simp
  qed
qed

lemma stay_step_components:
  "stay_step (c2d, c2f, c2l, y2c) s =
     (days_step c2d s, first_step c2f s, last_step c2l s, years_step y2c s)"
  by (cases s) (simp add: stay_step_def visit_step_def days_step_def first_step_def
      last_step_def years_step_def stay_days_def Let_def split: prod.splits)

lemma foldl_stay_step:
  "foldl stay_step (c2d, c2f, c2l, y2c) ss =
     (foldl days_step c2d ss, foldl first_step c2f ss, foldl last_step c2l ss,
      foldl years_step y2c ss)"
  by (induction ss arbitrary: c2d c2f c2l y2c) (simp_all add: stay_step_components)

lemma create_visit_history_Inr:
  "create_visit_history today rows = Inr h \<Longrightarrow>
   h = (foldl days_step [] (stays today rows), foldl first_step [] (stays today rows),
        foldl last_step [] (stays today rows), foldl years_step [] (stays today rows))"
  unfolding create_visit_history_def
  using visit_loop_Inr_valid [of today rows "([], [], [], [])" h]
        visit_loop_stays [of rows today "([], [], [], [])"]
  by (auto simp: foldl_stay_step)

lemma create_visit_history_valid:
  "\<forall>r\<in>set rows. valid_date (mk_date (fst r)) \<Longrightarrow>
   create_visit_history today rows =
     Inr (foldl days_step [] (stays today rows), foldl first_step [] (stays today rows),
          foldl last_step [] (stays today rows), foldl years_step [] (stays today rows))"
  unfolding create_visit_history_def
  by (simp add: visit_loop_stays foldl_stay_step)

lemma map_of_days_step:
  "map_of (days_step c2d s) = (map_of c2d)(fst s \<mapsto> dict_get0 c2d (fst s) + stay_days s)"
  by (rule ext) (auto simp: days_step_def defaultdict_getitem_def dict_get0_def update_conv'
      map_add_def split: option.splits)

lemma dict_get0_days_step:
  "dict_get0 (days_step c2d s) k = dict_get0 c2d k + (if fst s = k then stay_days s else 0)"
  by (simp add: dict_get0_def map_of_days_step)

lemma dict_get0_foldl_days:
  "dict_get0 (foldl days_step c2d ss) k = dict_get0 c2d k + total_stay_days ss k"
  by (induction ss arbitrary: c2d) (simp_all add: total_stay_days_def dict_get0_days_step)

lemma keys_days_step: "fst ` set (days_step c2d s) = insert (fst s) (fst ` set c2d)"
  by (auto simp: days_step_def defaultdict_getitem_def dom_update split: option.splits)

lemma keys_foldl_days: "fst ` set (foldl days_step c2d ss) = fst ` set c2d \<union> fst ` set ss"
  by (induction ss arbitrary: c2d) (auto simp: keys_days_step)

lemma distinct_days_step:
  "distinct (map fst c2d) \<Longrightarrow> distinct (map fst (days_step c2d s))"
  by (auto simp: days_step_def defaultdict_getitem_def distinct_update map_of_eq_None_iff
      split: option.splits intro!: distinct_update)

lemma distinct_foldl_days:
  "distinct (map fst c2d) \<Longrightarrow> distinct (map fst (foldl days_step c2d ss))"
  by (induction ss arbitrary: c2d) (simp_all add: distinct_days_step)

lemma fst_set_stays: "fst ` set (stays today rows) = snd ` set rows"
  by (induction rows) auto

lemma map_of_foldl_days:
  "map_of (foldl days_step [] ss) k =
     (if k \<in> fst ` set ss then Some (total_stay_days ss k) else None)"
proof (cases "k \<in> fst ` set ss")
  case True
  then have "k \<in> fst ` set (foldl days_step [] ss)" by (simp add: keys_foldl_days)
  then obtain v where v: "map_of (foldl days_step [] ss) k = Some v"
    by (metis map_of_eq_None_iff not_None_eq)
  with dict_get0_foldl_days [of "[]" ss k] have "v = total_stay_days ss k"
    by (simp add: dict_get0_def)
  with v True show ?thesis by simp
next
  case False
  then have "k \<notin> fst ` set (foldl days_step [] ss)" by (simp add: keys_foldl_days)
  then show ?thesis using False by (simp add: map_of_eq_None_iff)
qed

section \<open>Aggregate Rollup\<close>

lemma filter_other_keys:
  "k \<notin> fst ` set d \<Longrightarrow> filter (\<lambda>(c, n). c \<noteq> k) d = d"
  by (induction d) auto

lemma sum_split_key:
  "distinct (map fst d) \<Longrightarrow>
   sum_list (map snd d) = dict_get0 d k + sum_list (map snd (filter (\<lambda>(c, n). c \<noteq> k) d))"
proof (induction d)
  case Nil
  then show ?case by (simp add: dict_get0_def)
next
  case (Cons a d)
  show ?case
  proof (cases "fst a = k")
    case True
    with Cons.prems have "k \<notin> fst ` set d" by auto
    then have "filter (\<lambda>(c, n). c \<noteq> k) d = d" by (rule filter_other_keys)
    with True show ?thesis by (cases a) (simp add: dict_get0_def)
  next
    case False
    with Cons show ?thesis by (cases a) (simp add: dict_get0_def)
  qed
qed

lemma defaultdict_getitem_value:
  "fst (defaultdict_getitem 0 d k) = dict_get0 d k"
  by (simp add: defaultdict_getitem_def dict_get0_def split: option.splits)

lemma defaultdict_getitem_others:
  "filter (\<lambda>(c, n). c \<noteq> k) (snd (defaultdict_getitem v d k)) = filter (\<lambda>(c, n). c \<noteq> k) d"
  by (simp add: defaultdict_getitem_def split: option.splits)

lemma defaultdict_getitem_sum:
  "sum_list (map snd (snd (defaultdict_getitem 0 d k))) = sum_list (map snd d)"
  by (simp add: defaultdict_getitem_def split: option.splits)

lemma defaultdict_getitem_eq:
  "defaultdict_getitem 0 d k = (v, d') \<Longrightarrow>
   v = dict_get0 d k \<and> d' = snd (defaultdict_getitem 0 d k) \<and>
   filter (\<lambda>(c, n). c \<noteq> k) d' = filter (\<lambda>(c, n). c \<noteq> k) d"
  by (auto simp: defaultdict_getitem_def dict_get0_def split: option.splits)

lemma init_Inr:
  assumes "TravelDayCounter_init c today rows = Inr t"
  shows "\<exists>c2d c2f c2l y2c.
    create_visit_history today rows = Inr (c2d, c2f, c2l, y2c) \<and>
    days_home t = dict_get0 c2d (home_code c) \<and>
    days_abroad t = sum_list (map snd (filter (\<lambda>(country, days). country \<noteq> home_code c) c2d)) \<and>
    country2days t = snd (defaultdict_getitem 0 c2d (home_code c)) \<and>
    country2firstvisit t = c2f \<and> country2lastvisit t = c2l \<and> visityear2countries t = y2c \<and>
    country2rank t = create_country2rank c2d \<and>
    create_country2percent c2d = Inr (country2percent t)"
proof -
  from assms obtain c2d c2f c2l y2c where h: "create_visit_history today rows = Inr (c2d, c2f, c2l, y2c)"
    unfolding TravelDayCounter_init_def by (auto split: sum.splits)
  from assms h obtain c2p where p: "create_country2percent c2d = Inr c2p"
    unfolding TravelDayCounter_init_def by (auto split: sum.splits)
  obtain dh c2d' where g: "defaultdict_getitem 0 c2d (home_code c) = (dh, c2d')"
    by (cases "defaultdict_getitem 0 c2d (home_code c)")
  from assms h p g obtain rp where
    t: "t = \<lparr>cfg = c, country2days = c2d', country2percent = c2p,
             country2rank = create_country2rank c2d, country2firstvisit = c2f,
             country2lastvisit = c2l, visityear2countries = y2c,
             num_visited_countries = length c2d, days_home = dh,
             years_home = Round1_Div365 dh,
             days_abroad = sum_list (map snd (filter (\<lambda>(country, days). country \<noteq> home_code c) c2d')),
             years_abroad = Round1_Div365 (sum_list (map snd (filter (\<lambda>(country, days). country \<noteq> home_code c) c2d'))),
             residency_period = rp\<rparr>"
    unfolding TravelDayCounter_init_def by (auto simp: Let_def split: sum.splits)
  from defaultdict_getitem_eq [OF g] h p t show ?thesis
    by (simp add: defaultdict_getitem_others)
qed


lemma example_init: "TravelDayCounter_init example_config example_today example_rows = Inr example_counter"
  by code_simp

lemma example_init_away:
  "TravelDayCounter_init example_config_away example_today example_rows = Inr example_counter_away"
  by code_simp

lemma example_builder: "create_visit_history example_today example_rows = Inr example_history"
  by code_simp

lemma distinct_builder_days:
  "create_visit_history today rows = Inr (c2d, c2f, c2l, y2c) \<Longrightarrow> distinct (map fst c2d)"
  by (drule create_visit_history_Inr) (simp add: distinct_foldl_days)

lemma keys_builder_days:
  "create_visit_history today rows = Inr (c2d, c2f, c2l, y2c) \<Longrightarrow> fst ` set c2d = snd ` set rows"
  by (drule create_visit_history_Inr) (simp add: keys_foldl_days fst_set_stays)

text \<open>
  C4. Whenever the constructor returns an object, the sum of all values of its
  \<open>country2days\<close> equals \<open>days_home + days_abroad\<close>, where \<open>days_home\<close> is the
  lookup at the home code and \<open>days_abroad\<close> sums the entries of every other country.
\<close>

theorem total_is_home_plus_abroad:
  assumes "TravelDayCounter_init c today rows = Inr t"
  shows "sum_list (map snd (country2days t)) = days_home t + days_abroad t"
proof -
  from init_Inr [OF assms] obtain c2d c2f c2l y2c where
    h: "create_visit_history today rows = Inr (c2d, c2f, c2l, y2c)" and
    dh: "days_home t = dict_get0 c2d (home_code c)" and
    da: "days_abroad t = sum_list (map snd (filter (\<lambda>(country, days). country \<noteq> home_code c) c2d))" and
    cd: "country2days t = snd (defaultdict_getitem 0 c2d (home_code c))"
    by blast
  have "sum_list (map snd (country2days t)) = sum_list (map snd c2d)"
    by (simp add: cd defaultdict_getitem_sum)
  also have "\<dots> = days_home t + days_abroad t"
    unfolding dh da by (rule sum_split_key) (rule distinct_builder_days [OF h])
  finally show ?thesis .
qed

text \<open>
  The example input with home code A: 366 = 183 + 183.
\<close>

theorem total_is_home_plus_abroad_witness:
  "TravelDayCounter_init example_config example_today example_rows = Inr example_counter \<and>
   sum_list (map snd (country2days example_counter))
     = days_home example_counter + days_abroad example_counter"
proof -
  have h: "TravelDayCounter_init example_config example_today example_rows = Inr example_counter"
    by code_simp
  from total_is_home_plus_abroad [OF h] h show ?thesis by simp
qed

text \<open>
  C8. A home code that occurs in no row gives \<open>days_home = 0\<close> and \<open>days_abroad\<close> equal
  to the sum of all the day totals the Builder returned.
\<close>

theorem unknown_home_code:
  assumes "home_code c \<notin> snd ` set rows"
    and "TravelDayCounter_init c today rows = Inr t"
    and "create_visit_history today rows = Inr (c2d, c2f, c2l, y2c)"
  shows "days_home t = 0 \<and> days_abroad t = sum_list (map snd c2d)"
proof -
  from init_Inr [OF assms(2)] assms(3) have
    dh: "days_home t = dict_get0 c2d (home_code c)" and
    da: "days_abroad t = sum_list (map snd (filter (\<lambda>(country, days). country \<noteq> home_code c) c2d))"
    by auto
  from assms(1) keys_builder_days [OF assms(3)] have nk: "home_code c \<notin> fst ` set c2d" by simp
  then have "map_of c2d (home_code c) = None" by (simp add: map_of_eq_None_iff)
  then have "days_home t = 0" by (simp add: dh dict_get0_def)
  moreover from nk have "days_abroad t = sum_list (map snd c2d)"
    by (simp add: da filter_other_keys)
  ultimately show ?thesis ..
qed

text \<open>
  The example input with home code H, which no row enters.
\<close>

theorem unknown_home_code_witness:
  "home_code example_config_away \<notin> snd ` set example_rows \<and>
   TravelDayCounter_init example_config_away example_today example_rows = Inr example_counter_away \<and>
   create_visit_history example_today example_rows = Inr example_history \<and>
   days_home example_counter_away = 0 \<and>
   days_abroad example_counter_away = sum_list (map snd (fst example_history))"
proof -
  have a: "home_code example_config_away \<notin> snd ` set example_rows" by code_simp
  have b: "TravelDayCounter_init example_config_away example_today example_rows = Inr example_counter_away"
    by code_simp
  have c: "create_visit_history example_today example_rows =
     Inr (fst example_history, fst (snd example_history), fst (snd (snd example_history)),
          snd (snd (snd example_history)))"
    by code_simp
  from unknown_home_code [OF a b c] a b c show ?thesis by simp
qed

text \<open>
  C9. The read \<^verbatim>\<open>self.country2days[self.home_code]\<close> changes the dictionary the Builder
  returned when the home code is not one of its keys: on the example input with home
  code H the Builder returns the keys A and B, and the object's \<open>country2days\<close> has the
  keys A, B and H, while the percent and rank tables and the country count, computed
  before the read, have A and B only.
\<close>

theorem home_lookup_adds_key:
  "create_visit_history example_today example_rows = Inr example_history \<and>
   fst example_history = [(''A'', 183), (''B'', 183)] \<and>
   map_sum id country2days (TravelDayCounter_init example_config_away example_today example_rows)
     = Inr [(''A'', 183), (''B'', 183), (''H'', 0)] \<and>
   map_sum id country2percent (TravelDayCounter_init example_config_away example_today example_rows)
     = Inr [(''A'', PercentText 183 366), (''B'', PercentText 183 366)] \<and>
   map_sum id country2rank (TravelDayCounter_init example_config_away example_today example_rows)
     = Inr [(''A'', 1), (''B'', 1)] \<and>
   map_sum id num_visited_countries
       (TravelDayCounter_init example_config_away example_today example_rows)
     = Inr 2"
  by code_simp

section \<open>Inputs the program does not reject\<close>

text \<open>
  C5, as stated, fails: with no rows the Builder returns four empty tables, the
  percentage derivation returns the empty table, and the constructor returns an
  object, not an error.
\<close>

theorem empty_input_not_rejected:
  "create_visit_history example_today [] = Inr ([], [], [], []) \<and>
   create_country2percent [] = Inr [] \<and>
   \<not> isl (TravelDayCounter_init example_config example_today [])"
  by code_simp

text \<open>
  C5, amended. With no rows and any current date nothing is rejected as an empty input:
  the Builder returns four empty tables, the percentage derivation returns the empty
  table without dividing, and the rank table is empty. The constructor then returns an
  object with zero days home and abroad when the residency start date is a date, and
  raises \<^verbatim>\<open>ValueError\<close> when it is not. On that object \<^verbatim>\<open>shortened_table\<close> raises
  \<^verbatim>\<open>ZeroDivisionError\<close>, for every threshold.
\<close>

theorem empty_input_accepted:
  "create_visit_history today [] = Inr ([], [], [], []) \<and>
   create_country2percent [] = Inr [] \<and>
   create_country2rank [] = [] \<and>
   TravelDayCounter_init c today [] =
     (if valid_date (mk_date (residency_begin c))
      then Inr (empty_input_counter c (date_sub_days today (mk_date (residency_begin c))))
      else Inl ValueError) \<and>
   days_home (empty_input_counter c rp) = 0 \<and>
   days_abroad (empty_input_counter c rp) = 0 \<and>
   shortened_table (empty_input_counter c rp) threshold = Inl ZeroDivisionError"
  by (simp add: create_visit_history_def create_country2percent_def create_country2rank_def
      TravelDayCounter_init_def defaultdict_getitem_def day_count_def py_date_def
      empty_input_counter_def shortened_table_def)

text \<open>
  C6, as stated, fails: for the rows (2020-06-01, A), (2020-01-01, B) the Builder returns
  normally and A's total is -152 days.
\<close>

theorem negative_interval_accumulated:
  "create_visit_history \<lparr>year = 2021, month = 1, day = 1\<rparr>
       [((2020, 6, 1), ''A''), ((2020, 1, 1), ''B'')]
     = Inr ([(''A'', - 152), (''B'', 366)],
            [(''A'', \<lparr>year = 2020, month = 6, day = 1\<rparr>),
             (''B'', \<lparr>year = 2020, month = 1, day = 1\<rparr>)],
            [(''A'', \<lparr>year = 2020, month = 1, day = 1\<rparr>),
             (''B'', \<lparr>year = 2021, month = 1, day = 1\<rparr>)],
            [(2020, [''A'', ''B'']), (2021, [''B''])])"
  by code_simp

text \<open>
  C6, amended. For rows with well-formed dates in any order the Builder raises nothing,
  and the total of every country entered is the sum of the signed lengths of its stays,
  a negative length included as it is.
\<close>

theorem signed_intervals_summed:
  assumes "\<forall>r\<in>set rows. valid_date (mk_date (fst r))"
  shows "\<not> isl (create_visit_history today rows) \<and>
         (\<forall>c\<in>snd ` set rows.
            map_of (fst (projr (create_visit_history today rows))) c
              = Some (total_stay_days (stays today rows) c))"
  by (simp add: create_visit_history_valid [OF assms] map_of_foldl_days fst_set_stays)

text \<open>
  The rows of the counterexample: the total of A is its one stay of -152 days.
\<close>

theorem signed_intervals_summed_witness:
  "valid_date (mk_date (2020, 6, 1)) \<and> valid_date (mk_date (2020, 1, 1)) \<and>
   \<not> isl (create_visit_history example_today [((2020, 6, 1), ''A''), ((2020, 1, 1), ''B'')]) \<and>
   map_of (fst (projr (create_visit_history example_today
       [((2020, 6, 1), ''A''), ((2020, 1, 1), ''B'')]))) ''A'' = Some (- 152) \<and>
   total_stay_days (stays example_today [((2020, 6, 1), ''A''), ((2020, 1, 1), ''B'')]) ''A''
     = - 152"
proof -
  have v: "\<forall>r\<in>set [((2020, 6, 1), ''A''), ((2020::int, 1::int, 1::int), ''B'')].
             valid_date (mk_date (fst r))"
    by code_simp
  have t: "total_stay_days (stays example_today [((2020, 6, 1), ''A''), ((2020, 1, 1), ''B'')]) ''A''
     = - 152"
    by code_simp
  from signed_intervals_summed [OF v, of example_today] v t show ?thesis by simp
qed

section \<open>Calendar arithmetic\<close>

lemma div_succ:
  fixes z k :: int
  assumes "0 < k"
  shows "(z + 1) div k = z div k + (if (z + 1) mod k = 0 then 1 else 0)"
proof (cases "(z + 1) mod k = 0")
  case True
  have "z + 1 = k * ((z + 1) div k) + (z + 1) mod k" by simp
  with True have "z = k * ((z + 1) div k - 1) + (k - 1)" by (simp add: algebra_simps)
  from int_div_pos_eq [OF this] assms have "z div k = (z + 1) div k - 1" by simp
  with True show ?thesis by simp
next
  case False
  have r: "0 \<le> (z + 1) mod k" "(z + 1) mod k < k" using assms by simp_all
  have "z + 1 = k * ((z + 1) div k) + (z + 1) mod k" by simp
  then have "z = k * ((z + 1) div k) + ((z + 1) mod k - 1)" by (simp add: algebra_simps)
  from int_div_pos_eq [OF this] r False have "z div k = (z + 1) div k" by simp
  with False show ?thesis by simp
qed

lemma days_before_year_Suc:
  "days_before_year (y + 1) = days_before_year y + 365 + (if is_leap y then 1 else 0)"
proof -
  define q4 q100 q400 where "q4 = (y - 1) div 4" and "q100 = (y - 1) div 100"
    and "q400 = (y - 1) div 400"
  define p4 p100 p400 where "p4 \<longleftrightarrow> y mod 4 = 0" and "p100 \<longleftrightarrow> y mod 100 = 0"
    and "p400 \<longleftrightarrow> y mod 400 = 0"
  have d4: "y div 4 = q4 + (if p4 then 1 else 0)"
    using div_succ [of 4 "y - 1"] by (simp add: q4_def p4_def)
  have d100: "y div 100 = q100 + (if p100 then 1 else 0)"
    using div_succ [of 100 "y - 1"] by (simp add: q100_def p100_def)
  have d400: "y div 400 = q400 + (if p400 then 1 else 0)"
    using div_succ [of 400 "y - 1"] by (simp add: q400_def p400_def)
  have a: "p4" if "p100"
  proof -
    from that have "100 dvd y" by (simp add: p100_def mod_eq_0_iff_dvd)
    then have "4 dvd y" by (rule dvd_trans [rotated]) simp
    then show ?thesis by (simp add: p4_def mod_eq_0_iff_dvd)
  qed
  have b: "p100" if "p400"
  proof -
    from that have "400 dvd y" by (simp add: p400_def mod_eq_0_iff_dvd)
    then have "100 dvd y" by (rule dvd_trans [rotated]) simp
    then show ?thesis by (simp add: p100_def mod_eq_0_iff_dvd)
  qed
  have l: "is_leap y \<longleftrightarrow> p4 \<and> (\<not> p100 \<or> p400)"
    by (simp add: is_leap_def p4_def p100_def p400_def)
  have e1: "days_before_year (y + 1) = y * 365 + y div 4 - y div 100 + y div 400"
    by (simp add: days_before_year_def Let_def)
  have e0: "days_before_year y = (y - 1) * 365 + q4 - q100 + q400"
    by (simp add: days_before_year_def Let_def q4_def q100_def q400_def)
  show ?thesis
    unfolding e1 e0 d4 d100 d400 l
    using a b by (cases p4; cases p100; cases p400; simp add: algebra_simps)
qed

lemma days_before_year_step: "days_before_year y + 365 \<le> days_before_year (y + 1)"
  by (simp add: days_before_year_Suc)


lemma days_before_year_mono_nat: "days_before_year y \<le> days_before_year (y + int k)"
proof (induction k)
  case 0
  then show ?case by simp
next
  case (Suc k)
  have "days_before_year (y + int k) \<le> days_before_year (y + int (Suc k))"
    using days_before_year_step [of "y + int k"] by (simp add: algebra_simps)
  with Suc show ?case by (rule order_trans)
qed

lemma days_before_year_mono: "y \<le> y' \<Longrightarrow> days_before_year y \<le> days_before_year y'"
  using days_before_year_mono_nat [of y "nat (y' - y)"] by simp

lemma month_cases:
  assumes "1 \<le> m" "m \<le> (12::int)"
  obtains "m = 1" | "m = 2" | "m = 3" | "m = 4" | "m = 5" | "m = 6"
    | "m = 7" | "m = 8" | "m = 9" | "m = 10" | "m = 11" | "m = 12"
proof -
  have "m = 1 \<or> m = 2 \<or> m = 3 \<or> m = 4 \<or> m = 5 \<or> m = 6 \<or> m = 7 \<or> m = 8 \<or> m = 9
        \<or> m = 10 \<or> m = 11 \<or> m = 12"
    using assms by presburger
  with that show ?thesis by blast
qed

lemma days_in_month_pos: "1 \<le> m \<Longrightarrow> m \<le> 12 \<Longrightarrow> 28 \<le> days_in_month y m"
  by (erule (1) month_cases) (simp_all add: days_in_month_def DAYS_IN_MONTH_def)

lemma days_before_month_nonneg: "1 \<le> m \<Longrightarrow> m \<le> 12 \<Longrightarrow> 0 \<le> days_before_month y m"
  by (erule (1) month_cases) (simp_all add: days_before_month_def DAYS_BEFORE_MONTH_def)

lemma days_before_month_step:
  assumes "1 \<le> m" "m \<le> 11"
  shows "days_before_month y (m + 1) = days_before_month y m + days_in_month y m"
proof -
  from assms have "m \<le> 12" by simp
  with assms(1) show ?thesis
    by (rule month_cases)
       (use assms(2) in \<open>simp_all add: days_before_month_def days_in_month_def
          DAYS_BEFORE_MONTH_def DAYS_IN_MONTH_def\<close>)
qed

lemma days_before_month_year_end:
  "1 \<le> m \<Longrightarrow> m \<le> 12 \<Longrightarrow>
   days_before_month y m + days_in_month y m \<le> 365 + (if is_leap y then 1 else 0)"
  by (erule (1) month_cases)
     (simp_all add: days_before_month_def days_in_month_def DAYS_BEFORE_MONTH_def DAYS_IN_MONTH_def)


lemma days_before_month_next:
  assumes "1 \<le> m" "m < m'" "m' \<le> 12"
  shows "days_before_month y m + days_in_month y m \<le> days_before_month y m'"
proof -
  have "days_before_month y (m + 1) \<le> days_before_month y (m + 1 + int k)
        \<or> 12 < m + 1 + int k" for k
  proof (induction k)
    case 0
    then show ?case by simp
  next
    case (Suc k)
    show ?case
    proof (cases "12 < m + 1 + int (Suc k)")
      case True
      then show ?thesis by simp
    next
      case False
      with assms have r: "1 \<le> m + 1 + int k" "m + 1 + int k \<le> 11" by simp_all
      from days_before_month_step [OF r, of y] days_in_month_pos [of "m + 1 + int k" y] r
      have "days_before_month y (m + 1 + int k) \<le> days_before_month y (m + 1 + int (Suc k))"
        by (simp add: algebra_simps)
      with Suc False show ?thesis by simp
    qed
  qed
  from this [of "nat (m' - (m + 1))"] assms
  have "days_before_month y (m + 1) \<le> days_before_month y m'" by simp
  moreover from assms have "days_before_month y (m + 1) = days_before_month y m + days_in_month y m"
    by (intro days_before_month_step) simp_all
  ultimately show ?thesis by simp
qed

lemma toordinal_mono:
  assumes "valid_date a" "valid_date b" "date_le a b"
  shows "toordinal a \<le> toordinal b"
proof -
  from assms(1) have a: "1 \<le> month a" "month a \<le> 12" "1 \<le> day a"
    "day a \<le> days_in_month (year a) (month a)"
    by (simp_all add: valid_date_def)
  from assms(2) have b: "1 \<le> month b" "month b \<le> 12" "1 \<le> day b"
    by (simp_all add: valid_date_def)
  consider (year) "year a < year b"
    | (month) "year a = year b" "month a < month b"
    | (day) "year a = year b" "month a = month b" "day a \<le> day b"
    using assms(3) by (auto simp: date_le_def)
  then show ?thesis
  proof cases
    case year
    have "toordinal a \<le> days_before_year (year a) + (365 + (if is_leap (year a) then 1 else 0))"
      using days_before_month_year_end [OF a(1,2), of "year a"] a(4)
      by (simp add: toordinal_def)
    also have "\<dots> = days_before_year (year a + 1)"
      by (simp add: days_before_year_Suc)
    also have "\<dots> \<le> days_before_year (year b)"
      using year by (intro days_before_year_mono) simp
    also have "\<dots> \<le> toordinal b"
      using days_before_month_nonneg [OF b(1,2), of "year b"] b(3) by (simp add: toordinal_def)
    finally show ?thesis .
  next
    case month
    from days_before_month_next [OF a(1) month(2) b(2), of "year a"] a(4) b(3) month(1)
    show ?thesis by (simp add: toordinal_def)
  next
    case day
    then show ?thesis by (simp add: toordinal_def)
  qed
qed

lemma date_le_refl: "date_le a a"
  by (simp add: date_le_def)

lemma date_le_trans: "date_le a b \<Longrightarrow> date_le b c \<Longrightarrow> date_le a c"
  by (auto simp: date_le_def)

section \<open>Ordered input\<close>

lemma stays_Cons_last: "stays today [r] = [(snd r, mk_date (fst r), today)]"
  by simp

lemma stays_Cons_next:
  "stays today (r # nxt # rest) =
     (snd r, mk_date (fst r), mk_date (fst nxt)) # stays today (nxt # rest)"
  by simp

lemma stays_departure_lower_bound:
  "\<forall>r\<in>set rows. date_le x (mk_date (fst r)) \<Longrightarrow> date_le x today \<Longrightarrow>
   s \<in> set (stays today rows) \<Longrightarrow> date_le x (snd (snd s))"
proof (induction rows)
  case Nil
  then show ?case by simp
next
  case (Cons r rows)
  show ?case
  proof (cases rows)
    case Nil
    with Cons.prems show ?thesis by simp
  next
    case c: (Cons nxt rest)
    from Cons.prems(3) c consider "s = (snd r, mk_date (fst r), mk_date (fst nxt))"
      | "s \<in> set (stays today rows)"
      by (auto simp only: stays_Cons_next set_simps)
    then show ?thesis
    proof cases
      case 1
      with Cons.prems(1) c show ?thesis by simp
    next
      case 2
      with Cons.IH Cons.prems(1,2) show ?thesis by simp
    qed
  qed
qed

lemma stays_entry_le_departure:
  "chronological rows \<Longrightarrow> none_after today rows \<Longrightarrow>
   s \<in> set (stays today rows) \<Longrightarrow> date_le (fst (snd s)) (snd (snd s))"
proof (induction rows)
  case Nil
  then show ?case by simp
next
  case (Cons r rows)
  from Cons.prems(1,2) have tl: "chronological rows" "none_after today rows"
    by (simp_all add: chronological_def none_after_def)
  show ?case
  proof (cases rows)
    case Nil
    with Cons.prems show ?thesis by (simp add: none_after_def)
  next
    case c: (Cons nxt rest)
    from Cons.prems(3) c consider "s = (snd r, mk_date (fst r), mk_date (fst nxt))"
      | "s \<in> set (stays today rows)"
      by (auto simp only: stays_Cons_next set_simps)
    then show ?thesis
    proof cases
      case 1
      with Cons.prems(1) c show ?thesis by (simp add: chronological_def)
    next
      case 2
      with Cons.IH tl show ?thesis by simp
    qed
  qed
qed

lemma stays_departures_sorted:
  "chronological rows \<Longrightarrow> none_after today rows \<Longrightarrow>
   sorted_wrt (\<lambda>a b. date_le (snd (snd a)) (snd (snd b))) (stays today rows)"
proof (induction rows)
  case Nil
  then show ?case by simp
next
  case (Cons r rows)
  then have ih: "sorted_wrt (\<lambda>a b. date_le (snd (snd a)) (snd (snd b))) (stays today rows)"
    by (simp add: chronological_def none_after_def)
  show ?case
  proof (cases rows)
    case Nil
    then show ?thesis by simp
  next
    case (Cons nxt rest)
    have "date_le (mk_date (fst nxt)) (snd (snd s))" if "s \<in> set (stays today rows)" for s
    proof (rule stays_departure_lower_bound [OF _ _ that])
      show "\<forall>r\<in>set rows. date_le (mk_date (fst nxt)) (mk_date (fst r))"
        using Cons.prems(1) Cons by (auto simp: chronological_def date_le_refl)
      show "date_le (mk_date (fst nxt)) today"
        using Cons.prems(2) Cons by (simp add: none_after_def)
    qed
    with ih Cons show ?thesis by simp
  qed
qed

lemma stays_dates_valid:
  "\<forall>r\<in>set rows. valid_date (mk_date (fst r)) \<Longrightarrow> valid_date today \<Longrightarrow>
   s \<in> set (stays today rows) \<Longrightarrow> valid_date (fst (snd s)) \<and> valid_date (snd (snd s))"
proof (induction rows)
  case Nil
  then show ?case by simp
next
  case (Cons r rows)
  show ?case
  proof (cases rows)
    case Nil
    with Cons.prems show ?thesis by simp
  next
    case c: (Cons nxt rest)
    from Cons.prems(3) c consider "s = (snd r, mk_date (fst r), mk_date (fst nxt))"
      | "s \<in> set (stays today rows)"
      by (auto simp only: stays_Cons_next set_simps)
    then show ?thesis
    proof cases
      case 1
      with Cons.prems(1) c show ?thesis by simp
    next
      case 2
      with Cons.IH Cons.prems(1,2) show ?thesis by simp
    qed
  qed
qed

lemma stay_days_nonneg:
  assumes "\<forall>r\<in>set rows. valid_date (mk_date (fst r))" "valid_date today"
    "chronological rows" "none_after today rows" "s \<in> set (stays today rows)"
  shows "0 \<le> stay_days s"
proof -
  from stays_dates_valid [OF assms(1,2,5)] stays_entry_le_departure [OF assms(3,4,5)]
  have "toordinal (fst (snd s)) \<le> toordinal (snd (snd s))"
    by (intro toordinal_mono) simp_all
  then show ?thesis by (cases s) (simp add: stay_days_def date_sub_days_def)
qed

lemma map_of_first_step:
  "map_of (first_step c2f s) =
     (if map_of c2f (fst s) = None then (map_of c2f)(fst s \<mapsto> fst (snd s)) else map_of c2f)"
  by (simp add: first_step_def update_conv')

lemma map_of_last_step: "map_of (last_step c2l s) = (map_of c2l)(fst s \<mapsto> snd (snd s))"
  by (simp add: last_step_def update_conv')

lemma dom_foldl_first: "dom (map_of (foldl first_step c2f ss)) = dom (map_of c2f) \<union> fst ` set ss"
  by (induction ss arbitrary: c2f) (auto simp: map_of_first_step split: if_splits)

lemma dom_foldl_last: "dom (map_of (foldl last_step c2l ss)) = dom (map_of c2l) \<union> fst ` set ss"
  by (induction ss arbitrary: c2l) (auto simp: map_of_last_step split: if_splits)

lemma first_le_last:
  assumes "\<forall>s\<in>set ss. date_le (fst (snd s)) (snd (snd s))"
    and "sorted_wrt (\<lambda>a b. date_le (snd (snd a)) (snd (snd b))) ss"
    and "map_of (foldl first_step [] ss) c = Some f"
    and "map_of (foldl last_step [] ss) c = Some l"
  shows "date_le f l \<and> (\<exists>s\<in>set ss. l = snd (snd s))"
  using assms
proof (induction ss arbitrary: f l rule: rev_induct)
  case Nil
  then show ?case by simp
next
  case (snoc s ss)
  from snoc.prems(1) have ord: "\<forall>s\<in>set ss. date_le (fst (snd s)) (snd (snd s))"
    and es: "date_le (fst (snd s)) (snd (snd s))" by simp_all
  from snoc.prems(2) have srt: "sorted_wrt (\<lambda>a b. date_le (snd (snd a)) (snd (snd b))) ss"
    and before: "\<forall>a\<in>set ss. date_le (snd (snd a)) (snd (snd s))"
    by (simp_all add: sorted_wrt_append)
  show ?case
  proof (cases "fst s = c")
    case False
    with snoc.prems(3,4) have "map_of (foldl first_step [] ss) c = Some f"
      "map_of (foldl last_step [] ss) c = Some l"
      by (simp_all add: map_of_first_step map_of_last_step split: if_splits)
    from snoc.IH [OF ord srt this] show ?thesis by auto
  next
    case True
    with snoc.prems(4) have l: "l = snd (snd s)" by (simp add: map_of_last_step)
    show ?thesis
    proof (cases "map_of (foldl first_step [] ss) c")
      case None
      with True snoc.prems(3) have "f = fst (snd s)" by (simp add: map_of_first_step)
      with es l show ?thesis by simp
    next
      case (Some f0)
      with True snoc.prems(3) have f: "f = f0" by (simp add: map_of_first_step)
      from Some have "c \<in> dom (map_of (foldl first_step [] ss))" by blast
      then have "c \<in> dom (map_of (foldl last_step [] ss))"
        by (simp add: dom_foldl_first dom_foldl_last)
      then obtain l0 where l0: "map_of (foldl last_step [] ss) c = Some l0" by blast
      from snoc.IH [OF ord srt Some l0] obtain s0 where
        "date_le f0 l0" "s0 \<in> set ss" "l0 = snd (snd s0)" by blast
      with before have "date_le f0 (snd (snd s))" by (blast intro: date_le_trans)
      with f l show ?thesis by simp
    qed
  qed
qed


section \<open>The year index\<close>

lemma lists_distinct_map_of:
  "lists_distinct y2c \<Longrightarrow> map_of y2c y = Some l \<Longrightarrow> distinct l"
proof -
  assume a: "lists_distinct y2c" and "map_of y2c y = Some l"
  then have "(y, l) \<in> set y2c" by (rule_tac map_of_SomeD)
  with a show ?thesis by (force simp: lists_distinct_def list_all_iff)
qed

lemma lists_distinct_update:
  "lists_distinct y2c \<Longrightarrow> distinct l \<Longrightarrow> lists_distinct (AList.update y l y2c)"
  by (induction y2c) (auto simp: lists_distinct_def)

lemma lists_distinct_add: "lists_distinct y2c \<Longrightarrow> lists_distinct (add_year_country y c y2c)"
  unfolding add_year_country_def Let_def
  by (rule lists_distinct_update) (auto split: option.splits dest: lists_distinct_map_of)

lemma listed_add_same: "lists_distinct y2c \<Longrightarrow> listed (add_year_country y c y2c) y c"
  by (auto simp: listed_def add_year_country_def Let_def update_conv'
      split: option.splits dest: lists_distinct_map_of)

lemma listed_add_mono:
  "lists_distinct y2c \<Longrightarrow> listed y2c y' c' \<Longrightarrow> listed (add_year_country y c y2c) y' c'"
  by (auto simp: listed_def add_year_country_def Let_def update_conv'
      split: option.splits dest: lists_distinct_map_of)

lemma lists_distinct_years_step: "lists_distinct y2c \<Longrightarrow> lists_distinct (years_step y2c s)"
  by (simp add: years_step_def lists_distinct_add)

lemma listed_years_step_mono:
  "lists_distinct y2c \<Longrightarrow> listed y2c y c \<Longrightarrow> listed (years_step y2c s) y c"
  by (simp add: years_step_def listed_add_mono lists_distinct_add)

lemma listed_years_step:
  "lists_distinct y2c \<Longrightarrow>
   listed (years_step y2c s) (year (fst (snd s))) (fst s) \<and>
   listed (years_step y2c s) (year (snd (snd s))) (fst s)"
  by (simp add: years_step_def listed_add_same listed_add_mono lists_distinct_add)

lemma lists_distinct_foldl: "lists_distinct y2c \<Longrightarrow> lists_distinct (foldl years_step y2c ss)"
  by (induction ss arbitrary: y2c) (simp_all add: lists_distinct_years_step)

lemma listed_foldl_mono:
  "lists_distinct y2c \<Longrightarrow> listed y2c y c \<Longrightarrow> listed (foldl years_step y2c ss) y c"
  by (induction ss arbitrary: y2c) (simp_all add: lists_distinct_years_step listed_years_step_mono)

lemma listed_foldl:
  "lists_distinct y2c \<Longrightarrow> s \<in> set ss \<Longrightarrow>
   listed (foldl years_step y2c ss) (year (fst (snd s))) (fst s) \<and>
   listed (foldl years_step y2c ss) (year (snd (snd s))) (fst s)"
proof (induction ss arbitrary: y2c)
  case Nil
  then show ?case by simp
next
  case (Cons a ss)
  show ?case
  proof (cases "s = a")
    case True
    with listed_years_step [OF Cons.prems(1), of a] lists_distinct_years_step [OF Cons.prems(1), of a]
    show ?thesis by (simp add: listed_foldl_mono)
  next
    case False
    with Cons.prems(2) have "s \<in> set ss" by simp
    from Cons.IH [OF lists_distinct_years_step [OF Cons.prems(1)] this] show ?thesis by simp
  qed
qed


lemma listed_iff: "listed y2c y c \<longleftrightarrow> (\<exists>l. map_of y2c y = Some l \<and> c \<in> set l \<and> distinct l)"
  by (simp add: listed_def split: option.splits)

text \<open>
  C7. When the Builder returns, every stay whose entry and departure dates have different
  years has its country in the list of the entry year and in the list of the departure
  year, each list without duplicates, and the total of the country is the sum over the
  stays of that country, each stay counted once.
\<close>

theorem year_boundary_stay:
  assumes "create_visit_history today rows = Inr (c2d, c2f, c2l, y2c)"
    and "(c, e, d) \<in> set (stays today rows)"
    and "year e \<noteq> year d"
  shows "(\<exists>l. map_of y2c (year e) = Some l \<and> c \<in> set l \<and> distinct l) \<and>
         (\<exists>l. map_of y2c (year d) = Some l \<and> c \<in> set l \<and> distinct l) \<and>
         map_of c2d c = Some (total_stay_days (stays today rows) c)"
proof -
  from create_visit_history_Inr [OF assms(1)] have
    c2d: "c2d = foldl days_step [] (stays today rows)" and
    y2c: "y2c = foldl years_step [] (stays today rows)" by simp_all
  have "lists_distinct []" by (simp add: lists_distinct_def)
  from listed_foldl [OF this assms(2)] have
    "listed y2c (year e) c" "listed y2c (year d) c" by (simp_all add: y2c)
  moreover from assms(2) have "c \<in> fst ` set (stays today rows)" by force
  then have "map_of c2d c = Some (total_stay_days (stays today rows) c)"
    by (simp add: c2d map_of_foldl_days)
  ultimately show ?thesis by (simp add: listed_iff)
qed

text \<open>
  The last stay of the example, from 2020-12-01 to 2021-01-01 in A.
\<close>

theorem year_boundary_stay_witness:
  "create_visit_history example_today example_rows = Inr example_history \<and>
   (''A'', \<lparr>year = 2020, month = 12, day = 1\<rparr>, \<lparr>year = 2021, month = 1, day = 1\<rparr>)
     \<in> set (stays example_today example_rows) \<and>
   (\<exists>l. map_of (snd (snd (snd example_history))) 2020 = Some l \<and> ''A'' \<in> set l \<and> distinct l) \<and>
   (\<exists>l. map_of (snd (snd (snd example_history))) 2021 = Some l \<and> ''A'' \<in> set l \<and> distinct l) \<and>
   map_of (fst example_history) ''A'' = Some (total_stay_days (stays example_today example_rows) ''A'')"
proof -
  have h: "create_visit_history example_today example_rows =
     Inr (fst example_history, fst (snd example_history), fst (snd (snd example_history)),
          snd (snd (snd example_history)))"
    by code_simp
  have s: "(''A'', \<lparr>year = 2020, month = 12, day = 1\<rparr>, \<lparr>year = 2021, month = 1, day = 1\<rparr>)
     \<in> set (stays example_today example_rows)"
    by code_simp
  have y: "year \<lparr>year = 2020, month = 12, day = 1\<rparr> \<noteq> year \<lparr>year = 2021, month = 1, day = 1\<rparr>"
    by simp
  from year_boundary_stay [OF h s y] h s show ?thesis by simp
qed

text \<open>
  C10, as stated, fails: a single row dated 2030-01-01 is sorted, and with today
  2021-01-01 the first visit of A is after its last visit and its total is -3287 days.
\<close>

theorem future_record_breaks_order:
  "chronological [((2030, 1, 1), ''A'')] \<and>
   create_visit_history \<lparr>year = 2021, month = 1, day = 1\<rparr> [((2030, 1, 1), ''A'')]
     = Inr ([(''A'', - 3287)],
            [(''A'', \<lparr>year = 2030, month = 1, day = 1\<rparr>)],
            [(''A'', \<lparr>year = 2021, month = 1, day = 1\<rparr>)],
            [(2030, [''A'']), (2021, [''A''])]) \<and>
   \<not> date_le \<lparr>year = 2030, month = 1, day = 1\<rparr> \<lparr>year = 2021, month = 1, day = 1\<rparr>"
  by code_simp

text \<open>
  C10, amended. For rows sorted ascending by date, none dated after the current date,
  every country of the result has its first visit not after its last visit, its total is
  the sum of the lengths of its stays, and every stay has a non-negative length.
\<close>

theorem chronological_invariants:
  assumes "create_visit_history today rows = Inr (c2d, c2f, c2l, y2c)"
    and "valid_date today"
    and "chronological rows"
    and "none_after today rows"
    and "c \<in> fst ` set c2d"
  shows "\<exists>f l. map_of c2f c = Some f \<and> map_of c2l c = Some l \<and> date_le f l \<and>
           map_of c2d c = Some (total_stay_days (stays today rows) c) \<and>
           list_all (\<lambda>s. 0 \<le> stay_days s) (stays today rows)"
proof -
  let ?ss = "stays today rows"
  from create_visit_history_Inr [OF assms(1)] have
    c2d: "c2d = foldl days_step [] ?ss" and
    c2f: "c2f = foldl first_step [] ?ss" and
    c2l: "c2l = foldl last_step [] ?ss" by simp_all
  have valid: "\<forall>r\<in>set rows. valid_date (mk_date (fst r))"
    using assms(1) unfolding create_visit_history_def by (blast dest: visit_loop_Inr_valid)
  from assms(5) have c: "c \<in> fst ` set ?ss" by (simp add: c2d keys_foldl_days)
  then have "c \<in> dom (map_of c2f)" "c \<in> dom (map_of c2l)"
    by (simp_all add: c2f c2l dom_foldl_first dom_foldl_last)
  then obtain f l where f: "map_of c2f c = Some f" and l: "map_of c2l c = Some l" by blast
  have ord: "\<forall>s\<in>set ?ss. date_le (fst (snd s)) (snd (snd s))"
    using stays_entry_le_departure [OF assms(3,4)] by blast
  from first_le_last [OF ord stays_departures_sorted [OF assms(3,4)]] f l
  have "date_le f l" by (simp add: c2f c2l)
  moreover from c have "map_of c2d c = Some (total_stay_days ?ss c)"
    by (simp add: c2d map_of_foldl_days)
  moreover have "list_all (\<lambda>s. 0 \<le> stay_days s) ?ss"
    using stay_days_nonneg [OF valid assms(2,3,4)] by (simp add: list_all_iff)
  ultimately show ?thesis using f l by simp
qed

text \<open>
  The example input, for country A.
\<close>

theorem chronological_invariants_witness:
  "create_visit_history example_today example_rows = Inr example_history \<and>
   valid_date example_today \<and> chronological example_rows \<and>
   none_after example_today example_rows \<and>
   (\<exists>f l. map_of (fst (snd example_history)) ''A'' = Some f \<and>
          map_of (fst (snd (snd example_history))) ''A'' = Some l \<and> date_le f l \<and>
          map_of (fst example_history) ''A''
            = Some (total_stay_days (stays example_today example_rows) ''A'') \<and>
          list_all (\<lambda>s. 0 \<le> stay_days s) (stays example_today example_rows))"
proof -
  have h: "create_visit_history example_today example_rows =
     Inr (fst example_history, fst (snd example_history), fst (snd (snd example_history)),
          snd (snd (snd example_history)))"
    by code_simp
  have v: "valid_date example_today" by code_simp
  have c: "chronological example_rows" by code_simp
  have n: "none_after example_today example_rows" by code_simp
  have k: "''A'' \<in> fst ` set (fst example_history)" by code_simp
  from chronological_invariants [OF h v c n k] h v c n show ?thesis by simp
qed

section \<open>The rank derivation\<close>

lemma competition_rank_snoc:
  "snd x \<le> m \<Longrightarrow> competition_rank (ps @ [x]) m = competition_rank ps m"
  by (simp add: competition_rank_def more_days_def)

lemma more_days_all: "\<forall>y\<in>set ps. n < snd y \<Longrightarrow> more_days ps n = length ps"
  by (simp add: more_days_def)

lemma descending_last:
  assumes "sorted (map (\<lambda>x. - snd x) ps)" "ps \<noteq> []" "y \<in> set ps"
  shows "snd (last ps) \<le> (snd y :: int)"
proof -
  from assms(2) have ps: "ps = butlast ps @ [last ps]" by simp
  with assms(3) have "y \<in> set (butlast ps) \<or> y = last ps"
    by (metis Un_iff empty_iff empty_set set_ConsD set_append)
  moreover from assms(1) ps have "sorted (map (\<lambda>x. - snd x) (butlast ps @ [last ps]))" by simp
  then have "\<forall>z\<in>set (butlast ps). - snd z \<le> - snd (last ps)"
    by (simp add: sorted_append)
  ultimately show ?thesis by auto
qed

lemma rank_inv_step:
  assumes inv: "rank_inv ps s"
    and srt: "sorted (map (\<lambda>x. - snd x) (ps @ [x]))"
    and new: "fst x \<notin> fst ` set ps"
  shows "rank_inv (ps @ [x]) (rank_step s x)"
proof -
  obtain c2r cr cm rd where s: "s = (c2r, cr, cm, rd)" by (cases s)
  obtain c n where x: "x = (c, n)" by (cases x)
  from srt have sps: "sorted (map (\<lambda>x. - snd x) ps)" and ge: "\<forall>y\<in>set ps. n \<le> snd y"
    by (simp_all add: sorted_append x)
  from inv s have i1: "cr + rd = int (length ps)"
    and i2: "cm = (if ps = [] then None else Some (snd (last ps)))"
    and i3: "ps \<noteq> [] \<Longrightarrow> cr = competition_rank ps (snd (last ps))"
    and i4: "\<forall>y\<in>set ps. map_of c2r (fst y) = Some (competition_rank ps (snd y))"
    by (simp_all add: rank_inv_def)
  have old: "map_of (AList.update c r c2r) (fst y) = Some (competition_rank (ps @ [x]) (snd y))"
    if "y \<in> set ps" for y r
  proof -
    from that new x have "fst y \<noteq> c" by force
    moreover from that ge have "snd x \<le> snd y" by (simp add: x)
    ultimately show ?thesis using i4 that by (simp add: update_conv' competition_rank_snoc)
  qed
  show ?thesis
  proof (cases "below n cm")
    case True
    have all: "\<forall>y\<in>set ps. n < snd y"
    proof (cases "ps = []")
      case True
      then show ?thesis by simp
    next
      case False
      with True i2 have "n < snd (last ps)" by (simp add: below_def)
      with descending_last [OF sps False] show ?thesis by force
    qed
    have r: "competition_rank (ps @ [x]) n = cr + rd + 1"
      using more_days_all [OF all] i1 by (simp add: competition_rank_def more_days_def x)
    from True have st: "rank_step s x = (AList.update c (cr + rd + 1) c2r, cr + rd + 1, Some n, 0)"
      by (simp add: rank_step_def s x)
    show ?thesis
      unfolding st rank_inv_def using r i1 old by (simp add: x update_conv')
  next
    case False
    with i2 have ne: "ps \<noteq> []" and le: "snd (last ps) \<le> n"
      by (auto simp: below_def split: if_splits)
    from ne ge have "n \<le> snd (last ps)" by simp
    with le have eq: "snd (last ps) = n" by simp
    have r: "competition_rank (ps @ [x]) n = cr"
      using i3 [OF ne] eq by (simp add: competition_rank_snoc x)
    from False have st: "rank_step s x = (AList.update c cr c2r, cr, cm, rd + 1)"
      by (simp add: rank_step_def s x)
    show ?thesis
      unfolding st rank_inv_def using r i1 i2 ne eq old by (simp add: x update_conv')
  qed
qed

lemma rank_inv_foldl:
  "sorted (map (\<lambda>x. - snd x) ps) \<Longrightarrow> distinct (map fst ps) \<Longrightarrow>
   rank_inv ps (foldl rank_step ([], 0, None, 0) ps)"
proof (induction ps rule: rev_induct)
  case Nil
  then show ?case by (simp add: rank_inv_def)
next
  case (snoc x ps)
  from snoc.prems have "sorted (map (\<lambda>x. - snd x) ps)" "distinct (map fst ps)"
    "fst x \<notin> fst ` set ps"
    by (simp_all add: sorted_append)
  with snoc.IH snoc.prems(1) show ?case by (simp add: rank_inv_step)
qed

lemma more_days_sort: "more_days (sort_key f d) n = more_days d n"
  by (simp add: more_days_def filter_sort)

lemma rank_table:
  assumes "distinct (map fst d)" "(c, n) \<in> set d"
  shows "map_of (create_country2rank d) c = Some (competition_rank d n)"
proof -
  let ?ps = "sort_key (\<lambda>x. - snd x) d"
  have "sorted (map (\<lambda>x. - snd x) ?ps)" by (rule sorted_sort_key)
  moreover from assms(1) have "distinct (map fst ?ps)" by (simp add: distinct_map)
  ultimately have "rank_inv ?ps (foldl rank_step ([], 0, None, 0) ?ps)" by (rule rank_inv_foldl)
  moreover obtain c2r cr cm rd where st: "foldl rank_step ([], 0, None, 0) ?ps = (c2r, cr, cm, rd)"
    by (cases "foldl rank_step ([], 0, None, 0) ?ps")
  ultimately have "\<forall>x\<in>set d. map_of c2r (fst x) = Some (competition_rank ?ps (snd x))"
    by (simp add: rank_inv_def)
  with assms(2) have "map_of c2r c = Some (competition_rank ?ps n)" by force
  then show ?thesis
    by (simp add: create_country2rank_def st competition_rank_def more_days_sort)
qed


lemma more_days_next:
  "n' < n \<Longrightarrow> list_all (\<lambda>x. snd x \<le> n' \<or> n \<le> snd x) d \<Longrightarrow>
   more_days d n' = more_days d n + tie_group_size d n"
  by (induction d) (auto simp: more_days_def tie_group_size_def)

lemma more_days_top: "list_all (\<lambda>x. snd x \<le> n) d \<Longrightarrow> more_days d n = 0"
  by (induction d) (auto simp: more_days_def)

text \<open>
  C2. For a day-total dictionary and two of its entries \<open>(c, n)\<close> and \<open>(c', n')\<close>: both
  countries have a rank; the rank of \<open>c\<close> is a positive integer, one more than the number
  of entries with more days, so it is 1 when no entry has more days; equal day counts
  have equal ranks; and when \<open>n'\<close> is the next smaller day count below \<open>n\<close>, the rank
  of \<open>c'\<close> is the rank of \<open>c\<close> plus the number of entries tied at \<open>n\<close>.
\<close>

theorem tie_aware_ranking:
  assumes "distinct (map fst d)" and "(c, n) \<in> set d" and "(c', n') \<in> set d"
  shows "\<exists>r r'. map_of (create_country2rank d) c = Some r \<and>
           map_of (create_country2rank d) c' = Some r' \<and>
           1 \<le> r \<and> r = 1 + int (more_days d n) \<and>
           (list_all (\<lambda>x. snd x \<le> n) d \<longrightarrow> r = 1) \<and>
           (n' = n \<longrightarrow> r' = r) \<and>
           (n' < n \<and> list_all (\<lambda>x. snd x \<le> n' \<or> n \<le> snd x) d
              \<longrightarrow> r' = r + int (tie_group_size d n))"
proof -
  from rank_table [OF assms(1,2)] rank_table [OF assms(1,3)]
  have "map_of (create_country2rank d) c = Some (competition_rank d n)"
    "map_of (create_country2rank d) c' = Some (competition_rank d n')" .
  moreover have "1 \<le> competition_rank d n" "competition_rank d n = 1 + int (more_days d n)"
    by (simp_all add: competition_rank_def)
  moreover have "list_all (\<lambda>x. snd x \<le> n) d \<longrightarrow> competition_rank d n = 1"
    by (simp add: competition_rank_def more_days_top)
  moreover have "n' = n \<longrightarrow> competition_rank d n' = competition_rank d n" by simp
  moreover have "n' < n \<and> list_all (\<lambda>x. snd x \<le> n' \<or> n \<le> snd x) d
      \<longrightarrow> competition_rank d n' = competition_rank d n + int (tie_group_size d n)"
    using more_days_next [of n' n d] by (auto simp: competition_rank_def)
  ultimately show ?thesis by blast
qed

text \<open>
  Days A: 5, B: 7, C: 7, D: 1, E: 9. B and C tie at rank 2, so A, next below, has rank 4.
\<close>

theorem tie_aware_ranking_witness:
  "distinct (map fst example_days) \<and> (''B'', 7) \<in> set example_days \<and>
   (''A'', 5) \<in> set example_days \<and> tie_group_size example_days 7 = 2 \<and>
   (\<exists>r r'. map_of (create_country2rank example_days) ''B'' = Some r \<and>
           map_of (create_country2rank example_days) ''A'' = Some r' \<and>
           1 \<le> r \<and> r' = r + 2)"
proof -
  have a: "distinct (map fst example_days)" by code_simp
  have b: "(''B'', 7) \<in> set example_days" by code_simp
  have c: "(''A'', 5) \<in> set example_days" by code_simp
  have t: "tie_group_size example_days 7 = 2" by code_simp
  have g: "(5::int) < 7 \<and> list_all (\<lambda>x. snd x \<le> 5 \<or> 7 \<le> snd x) example_days" by code_simp
  from tie_aware_ranking [OF a b c] g t have
    "\<exists>r r'. map_of (create_country2rank example_days) ''B'' = Some r \<and>
           map_of (create_country2rank example_days) ''A'' = Some r' \<and>
           1 \<le> r \<and> r' = r + 2"
    by auto
  with a b c t show ?thesis by simp
qed

section \<open>The percentage derivation\<close>










end
